theory Spec2Isabelle
  imports Main "HOL-Library.Word"
begin

section \<open>Machine types of the source\<close>

text \<open>
  The source is C++ on a 64-bit platform: \<open>int\<close> and \<open>unsigned int\<close> are 32 bits wide,
  \<open>size_t\<close> is 64 bits wide. A signed \<open>int\<close> is a \<open>32 word\<close> that is read with \<open>sint\<close>,
  an \<open>unsigned int\<close> is a \<open>32 word\<close> that is read with \<open>unat\<close>. Signed overflow is
  undefined in C++; the model wraps around, as two's complement hardware does. The only
  signed arithmetic of the source is the expression of line 84; for a descriptor with valid
  fields it overflows only when the offset is within 32 of the largest \<open>int\<close>, and the
  wrapped sum is then negative.
\<close>

type_synonym c_int = "32 word"
type_synonym c_uint = "32 word"
type_synonym size_t = "64 word"

text \<open>The conversion of an \<open>int\<close> operand to \<open>size_t\<close>: sign extension, so that a negative
  value becomes a value close to \<open>2 ^ 64\<close>.\<close>

definition int_to_size_t :: "c_int \<Rightarrow> size_t" where
  "int_to_size_t x = scast x"

text \<open>The two exception classes that the source throws, with their messages.\<close>

datatype error = invalid_argument string | runtime_error string

text \<open>\<open>std::to_string\<close> on a non-negative number: its decimal digits.\<close>

definition digit_char :: "nat \<Rightarrow> char" where
  "digit_char d = ''0123456789'' ! d"

function to_string :: "nat \<Rightarrow> string" where
  "to_string n = (if n < 10 then [digit_char n] else to_string (n div 10) @ [digit_char (n mod 10)])"
  by pat_completeness auto
termination
  by (relation "measure (\<lambda>n. n)") auto

declare to_string.simps [simp del]

text \<open>\<open>std::to_string\<close> on an \<open>int\<close>.\<close>

definition to_string_int :: "int \<Rightarrow> string" where
  "to_string_int i = (if i < 0 then CHR ''-'' # to_string (nat (- i)) else to_string (nat i))"

section \<open>The enumerations of vertexArray.h\<close>

text \<open>
  \<open>enum class VertexAttribType\<close> and \<open>enum class VertexAttribInterp\<close> have the underlying
  type \<open>int\<close>; every \<open>int\<close> is a value of the type, and the enumerators are the values
  \<open>0, 1, 2, ...\<close> in the order of their declaration. A value that is no enumerator is
  what reaches the \<open>throw\<close> after the \<open>switch\<close> statements.
\<close>

type_synonym VertexAttribType = c_int
type_synonym VertexAttribInterp = c_int

definition VertexAttribType_Byte :: VertexAttribType where "VertexAttribType_Byte = 0"
definition VertexAttribType_UnsignedByte :: VertexAttribType where "VertexAttribType_UnsignedByte = 1"
definition VertexAttribType_Short :: VertexAttribType where "VertexAttribType_Short = 2"
definition VertexAttribType_UnsignedShort :: VertexAttribType where "VertexAttribType_UnsignedShort = 3"
definition VertexAttribType_Int :: VertexAttribType where "VertexAttribType_Int = 4"
definition VertexAttribType_UnsignedInt :: VertexAttribType where "VertexAttribType_UnsignedInt = 5"
definition VertexAttribType_HalfFloat :: VertexAttribType where "VertexAttribType_HalfFloat = 6"
definition VertexAttribType_Float :: VertexAttribType where "VertexAttribType_Float = 7"
definition VertexAttribType_Double :: VertexAttribType where "VertexAttribType_Double = 8"
definition VertexAttribType_Fixed :: VertexAttribType where "VertexAttribType_Fixed = 9"

definition VertexAttribInterp_Float :: VertexAttribInterp where "VertexAttribInterp_Float = 0"
definition VertexAttribInterp_Integer :: VertexAttribInterp where "VertexAttribInterp_Integer = 1"

text \<open>The set of the ten enumerators of \<open>VertexAttribType\<close>.\<close>

definition VertexAttribType_enumerators :: "VertexAttribType set" where
  "VertexAttribType_enumerators =
     {VertexAttribType_Byte, VertexAttribType_UnsignedByte, VertexAttribType_Short,
      VertexAttribType_UnsignedShort, VertexAttribType_Int, VertexAttribType_UnsignedInt,
      VertexAttribType_HalfFloat, VertexAttribType_Float, VertexAttribType_Double,
      VertexAttribType_Fixed}"

text \<open>
  The tokens of the native API that \<open>toGLenum\<close> returns. Their numbers are fixed by the
  headers of the graphics library, which is no part of this repository: they stay symbolic.
\<close>

datatype GLenum =
  GL_BYTE | GL_UNSIGNED_BYTE | GL_SHORT | GL_UNSIGNED_SHORT | GL_INT | GL_UNSIGNED_INT
  | GL_HALF_FLOAT | GL_FLOAT | GL_DOUBLE | GL_FIXED

section \<open>The three pure functions\<close>

definition toGLenum :: "VertexAttribType \<Rightarrow> error + GLenum" where
  "toGLenum type =
     (if type = VertexAttribType_Byte then Inr GL_BYTE
      else if type = VertexAttribType_UnsignedByte then Inr GL_UNSIGNED_BYTE
      else if type = VertexAttribType_Short then Inr GL_SHORT
      else if type = VertexAttribType_UnsignedShort then Inr GL_UNSIGNED_SHORT
      else if type = VertexAttribType_Int then Inr GL_INT
      else if type = VertexAttribType_UnsignedInt then Inr GL_UNSIGNED_INT
      else if type = VertexAttribType_HalfFloat then Inr GL_HALF_FLOAT
      else if type = VertexAttribType_Float then Inr GL_FLOAT
      else if type = VertexAttribType_Double then Inr GL_DOUBLE
      else if type = VertexAttribType_Fixed then Inr GL_FIXED
      else Inl (invalid_argument ''Given VertexAttribType is invalid!''))"

text \<open>The \<open>std::string& error\<close> parameter is passed in and returned beside the result.\<close>

definition validateTypeInterpretation ::
  "VertexAttribType \<Rightarrow> VertexAttribInterp \<Rightarrow> string \<Rightarrow> bool \<times> string" where
  "validateTypeInterpretation type interp err =
     (if interp = VertexAttribInterp_Integer then
        (if type = VertexAttribType_HalfFloat
           then (False, ''Can't use type HalfFloat with Integer interpretation!'')
         else if type = VertexAttribType_Float
           then (False, ''Can't use type Float with Integer interpretation!'')
         else if type = VertexAttribType_Double
           then (False, ''Can't use type Double with Integer interpretation!'')
         else if type = VertexAttribType_Fixed
           then (False, ''Can't use type Fixed with Integer interpretation!'')
         else (True, err))
      else (True, err))"

definition typeToBytes :: "VertexAttribType \<Rightarrow> error + c_int" where
  "typeToBytes type =
     (if type = VertexAttribType_Byte then Inr 1
      else if type = VertexAttribType_UnsignedByte then Inr 1
      else if type = VertexAttribType_Short then Inr 2
      else if type = VertexAttribType_UnsignedShort then Inr 2
      else if type = VertexAttribType_Int then Inr 4
      else if type = VertexAttribType_UnsignedInt then Inr 4
      else if type = VertexAttribType_HalfFloat then Inr 2
      else if type = VertexAttribType_Float then Inr 4
      else if type = VertexAttribType_Double then Inr 8
      else if type = VertexAttribType_Fixed then Inr 4
      else Inl (invalid_argument ''Given VertexAttribType is invalid!''))"

section \<open>The data of vertexArray.h\<close>

record VertexAttribute =
  index :: c_uint
  numComponents :: c_int
  type :: VertexAttribType
  interp :: VertexAttribInterp
  normalized :: bool
  offset :: c_int

text \<open>
  Modelled from the spec: the base class \<open>Buffer\<close> of GLA/buffer.h is not among the
  sources; of it the model keeps the native handle that the object owns (\<open>0\<close> is the
  handle of an object that owns nothing). A \<open>VertexArray\<close> is a \<open>Buffer\<close> with the
  private member \<open>_enabledVertexAttribs\<close> of vertexArray.h, line 76.
\<close>

record VertexArray =
  handle :: nat
  enabledVertexAttribs :: "c_uint list"

text \<open>
  The native driver. \<open>max_vertex_attribs\<close> is what \<open>glGetIntegerv(GL_MAX_VERTEX_ATTRIBS, _)\<close>
  stores at the address it is given (\<open>None\<close>: it stores nothing); \<open>calls\<close> is the sequence
  of native calls made so far, the oldest first. The driver belongs to the graphics
  library and is taken to accept every call.
\<close>

datatype gl_call =
  glGetIntegerv_MAX_VERTEX_ATTRIBS
  | glBindVertexArray nat
  | glDisableVertexAttribArray c_uint
  | glEnableVertexAttribArray c_uint
  | glVertexAttribIPointer c_uint c_int GLenum c_int c_int
  | glVertexAttribPointer c_uint c_int GLenum bool c_int c_int

record driver =
  max_vertex_attribs :: "c_int option"
  calls :: "gl_call list"

text \<open>
  Modelled from the spec: the macro \<open>GL_CALL\<close> of GLA/debug.h is not among the sources;
  the spec has it make the native call and, in a debug build only, turn an error that the
  driver reports into a failure. With a driver that reports none it only makes the call.
\<close>

definition GL_CALL :: "gl_call \<Rightarrow> driver \<Rightarrow> driver" where
  "GL_CALL c gl = gl\<lparr>calls := calls gl @ [c]\<rparr>"

text \<open>
  Modelled from the spec: \<open>Buffer::bind\<close> of GLA/buffer.h is not among the sources; the
  spec has it make the object the active target of its binding point, with no other effect.
\<close>

definition bind :: "VertexArray \<Rightarrow> driver \<Rightarrow> driver" where
  "bind va gl = GL_CALL (glBindVertexArray (handle va)) gl"

section \<open>The moves of \<open>VertexArray\<close>\<close>

text \<open>
  Modelled from the spec: the move constructor and the move assignment of \<open>Buffer\<close>
  (GLA/buffer.h, not among the sources) hand the native handle over to the destination and
  leave the source without one.
\<close>

definition Buffer_move :: "VertexArray \<Rightarrow> nat \<times> VertexArray" where
  "Buffer_move other = (handle other, other\<lparr>handle := 0\<rparr>)"

text \<open>
  \<open>VertexArray(VertexArray&& other) : Buffer(std::move(other)) {}\<close>: the base is built
  from \<open>other\<close>; the member \<open>_enabledVertexAttribs\<close> is not in the initialiser list and
  gets its default member initialiser \<open>{}\<close>. The result is the new object and what is left
  of \<open>other\<close>.
\<close>

definition VertexArray_move_construct :: "VertexArray \<Rightarrow> VertexArray \<times> VertexArray" where
  "VertexArray_move_construct other =
     (let (h, other') = Buffer_move other
      in (\<lparr>handle = h, enabledVertexAttribs = []\<rparr>, other'))"

text \<open>
  \<open>operator=(VertexArray&& other) { Buffer::operator=(std::move(other)); return *this; }\<close>:
  only the base is assigned; \<open>_enabledVertexAttribs\<close> of \<open>*this\<close> is not touched. The
  result is \<open>*this\<close> and what is left of \<open>other\<close>.
\<close>

definition VertexArray_move_assign :: "VertexArray \<Rightarrow> VertexArray \<Rightarrow> VertexArray \<times> VertexArray" where
  "VertexArray_move_assign this other =
     (let (h, other') = Buffer_move other
      in (this\<lparr>handle := h\<rparr>, other'))"

section \<open>\<open>VertexArray::setAttributes\<close>\<close>

text \<open>
  The body of \<open>DEBUG_ONLY( ... )\<close>, lines 83 to 92. The inner loop over \<open>j\<close>: the first
  comparison is between two \<open>int\<close>s, the second between the \<open>size_t\<close> value \<open>end\<close> and an
  \<open>int\<close> that is converted to \<open>size_t\<close>.
\<close>

fun overlap_loop :: "VertexAttribute list \<Rightarrow> nat \<Rightarrow> size_t \<Rightarrow> nat list \<Rightarrow> error + unit" where
  "overlap_loop attribs i end' [] = Inr ()"
| "overlap_loop attribs i end' (j # js) =
     (if i = j then overlap_loop attribs i end' js
      else if sint (offset (attribs ! i)) \<le> sint (offset (attribs ! j))
              \<and> int_to_size_t (offset (attribs ! j)) < end'
        then Inl (invalid_argument
                   (''VertexAttributes '' @ to_string i @ '' and '' @ to_string j @ '' overlap!''))
      else overlap_loop attribs i end' js)"

text \<open>
  The outer loop over \<open>i\<close>. The sum \<open>offset + typeToBytes(type) * numComponents\<close> is
  computed in \<open>int\<close> and then converted to \<open>size_t\<close>; \<open>stride\<close> is converted to \<open>size_t\<close>
  for the comparison. Both loops run over the positions \<open>0, ..., attribs.size() - 1\<close>.
\<close>

fun integrity_loop :: "VertexAttribute list \<Rightarrow> c_int \<Rightarrow> nat list \<Rightarrow> error + unit" where
  "integrity_loop attribs stride [] = Inr ()"
| "integrity_loop attribs stride (i # is) =
     (case typeToBytes (type (attribs ! i)) of
        Inl e \<Rightarrow> Inl e
      | Inr bytes \<Rightarrow>
          (let end' = int_to_size_t (offset (attribs ! i) + bytes * numComponents (attribs ! i))
           in if int_to_size_t stride < end'
                then Inl (invalid_argument ''Given VertexAttributes are bigger than the stride!'')
              else (case overlap_loop attribs i end' [0..<length attribs] of
                      Inl e \<Rightarrow> Inl e
                    | Inr _ \<Rightarrow> integrity_loop attribs stride is)))"

definition integrity_pass :: "VertexAttribute list \<Rightarrow> c_int \<Rightarrow> error + unit" where
  "integrity_pass attribs stride = integrity_loop attribs stride [0..<length attribs]"

text \<open>
  The loop of lines 96 to 115 over the descriptors that are left, on the object and the
  driver. \<open>n\<close> is \<open>attribs.size()\<close>. \<open>attrib.index >= maxVertexAttribs\<close> compares an
  \<open>unsigned int\<close> with an \<open>int\<close>, which is converted to \<open>unsigned int\<close>. \<open>toGLenum\<close> is
  evaluated as an argument of the native call, so its exception leaves the call unmade.
\<close>

fun attrib_loop ::
  "VertexAttribute list \<Rightarrow> c_int \<Rightarrow> nat \<Rightarrow> c_int \<Rightarrow> VertexArray \<times> driver
     \<Rightarrow> (error + unit) \<times> VertexArray \<times> driver" where
  "attrib_loop [] maxVertexAttribs n stride s = (Inr (), s)"
| "attrib_loop (attrib # rest) maxVertexAttribs n stride (va, gl) =
     (if sint (offset attrib) < 0
        then (Inl (invalid_argument ''Offset may not be less than 0!''), va, gl)
      else if maxVertexAttribs \<le> index attrib
        then (Inl (invalid_argument
                    (''The current GPU does not support indexes over '' @ to_string n @ ''!'')),
              va, gl)
      else if 4 < sint (numComponents attrib) \<or> sint (numComponents attrib) \<le> 0
        then (Inl (invalid_argument ''numComponents of VertexAttribute may only be 1 to 4!''),
              va, gl)
      else
        (let gl1 = GL_CALL (glEnableVertexAttribArray (index attrib)) gl;
             va1 = va\<lparr>enabledVertexAttribs := enabledVertexAttribs va @ [index attrib]\<rparr>
         in case validateTypeInterpretation (type attrib) (interp attrib) [] of
              (False, err) \<Rightarrow> (Inl (invalid_argument err), va1, gl1)
            | (True, _) \<Rightarrow>
                (case toGLenum (type attrib) of
                   Inl e \<Rightarrow> (Inl e, va1, gl1)
                 | Inr t \<Rightarrow>
                     attrib_loop rest maxVertexAttribs n stride
                       (va1,
                        GL_CALL
                          (if interp attrib = VertexAttribInterp_Integer
                             then glVertexAttribIPointer (index attrib) (numComponents attrib) t
                                    stride (offset attrib)
                           else glVertexAttribPointer (index attrib) (numComponents attrib) t
                                  (normalized attrib) stride (offset attrib))
                          gl1))))"

text \<open>
  The method. \<open>DEBUG_MODE\<close> says whether the macro \<open>DEBUG_ONLY\<close> of GLA/debug.h keeps its
  argument (a debug build) or drops it. The result is the exception thrown, if any, and the
  object and the driver as the call leaves them. \<open>maxVertexAttribs < attribs.size()\<close>
  compares an \<open>int\<close>, converted to \<open>size_t\<close>, with a \<open>size_t\<close>.
\<close>

definition setAttributes ::
  "bool \<Rightarrow> VertexAttribute list \<Rightarrow> c_int \<Rightarrow> VertexArray \<times> driver
     \<Rightarrow> (error + unit) \<times> VertexArray \<times> driver" where
  "setAttributes DEBUG_MODE attribs stride s =
     (case s of (va, gl) \<Rightarrow>
        if sint stride \<le> 0
          then (Inl (invalid_argument ''stride must be greater than 0!''), va, gl)
        else
          (let maxVertexAttribs = (case max_vertex_attribs gl of None \<Rightarrow> - 1 | Some m \<Rightarrow> m);
               gl1 = GL_CALL glGetIntegerv_MAX_VERTEX_ATTRIBS gl
           in if sint maxVertexAttribs < 0
                then (Inl (runtime_error ''Could not query GL_MAX_VERTEX_ATTRIBS!''), va, gl1)
              else if unat (int_to_size_t maxVertexAttribs) < length attribs
                then (Inl (runtime_error
                            (''The current GPU does not support '' @ to_string (length attribs)
                             @ '' vertex attributes. Max allowed are: ''
                             @ to_string_int (sint maxVertexAttribs)
                             @ ''. At least 16 are guaranteed!'')),
                      va, gl1)
              else
                (let gl2 = bind va gl1;
                     gl3 = fold (\<lambda>i. GL_CALL (glDisableVertexAttribArray i))
                             (enabledVertexAttribs va) gl2;
                     va1 = va\<lparr>enabledVertexAttribs := []\<rparr>
                 in case (if DEBUG_MODE then integrity_pass attribs stride else Inr ()) of
                      Inl e \<Rightarrow> (Inl e, va1, gl3)
                    | Inr _ \<Rightarrow>
                        attrib_loop attribs maxVertexAttribs (length attribs) stride (va1, gl3))))"

section \<open>The vocabulary of the specification\<close>

text \<open>The bytes of one attribute, \<open>scalarSize(type) * numComponents\<close>, and the end of its
  byte range, as numbers.\<close>

definition attrib_bytes :: "VertexAttribute \<Rightarrow> int" where
  "attrib_bytes a =
     (case typeToBytes (type a) of Inl _ \<Rightarrow> 0 | Inr b \<Rightarrow> sint b * sint (numComponents a))"

definition attrib_end :: "VertexAttribute \<Rightarrow> int" where
  "attrib_end a = sint (offset a) + attrib_bytes a"

definition exceeds_stride :: "VertexAttribute \<Rightarrow> c_int \<Rightarrow> bool" where
  "exceeds_stride a stride = (sint stride < attrib_end a)"

text \<open>The byte ranges \<open>[offset, offset + size)\<close> of two attributes have a byte in common.\<close>

definition ranges_overlap :: "VertexAttribute \<Rightarrow> VertexAttribute \<Rightarrow> bool" where
  "ranges_overlap a b = (max (sint (offset a)) (sint (offset b)) < min (attrib_end a) (attrib_end b))"

text \<open>The documented preconditions on one descriptor that do not depend on the platform.\<close>

definition valid_attribute :: "VertexAttribute \<Rightarrow> bool" where
  "valid_attribute a =
     (0 \<le> sint (offset a) \<and> 1 \<le> sint (numComponents a) \<and> sint (numComponents a) \<le> 4
      \<and> type a \<in> VertexAttribType_enumerators)"

definition compatible :: "VertexAttribute \<Rightarrow> bool" where
  "compatible a = fst (validateTypeInterpretation (type a) (interp a) [])"

text \<open>The native calls that a descriptor which passes every check gives rise to.\<close>

definition attribute_calls :: "c_int \<Rightarrow> VertexAttribute \<Rightarrow> gl_call list" where
  "attribute_calls stride a =
     (case toGLenum (type a) of
        Inl _ \<Rightarrow> [glEnableVertexAttribArray (index a)]
      | Inr t \<Rightarrow>
          [glEnableVertexAttribArray (index a),
           if interp a = VertexAttribInterp_Integer
             then glVertexAttribIPointer (index a) (numComponents a) t stride (offset a)
           else glVertexAttribPointer (index a) (numComponents a) t (normalized a) stride (offset a)])"

text \<open>The two exceptions of the debug pass.\<close>

definition stride_error :: error where
  "stride_error = invalid_argument ''Given VertexAttributes are bigger than the stride!''"

definition overlap_error :: "nat \<Rightarrow> nat \<Rightarrow> error" where
  "overlap_error i j =
     invalid_argument
       (''VertexAttributes '' @ to_string i @ '' and '' @ to_string j @ '' overlap!'')"

text \<open>The test of line 89 in numbers: \<open>b\<close> starts inside the range of \<open>a\<close>.\<close>

definition overlap_found :: "VertexAttribute \<Rightarrow> VertexAttribute \<Rightarrow> bool" where
  "overlap_found a b = (sint (offset a) \<le> sint (offset b) \<and> sint (offset b) < attrib_end a)"

text \<open>
  The checks of one round of the loop of lines 96 to 115, by the place where they stand:
  the three before the index is enabled and recorded, and the two after it (the
  compatibility check, and \<open>toGLenum\<close>, which throws on a type that is no enumerator).
\<close>

definition rejected_before_enable :: "c_int \<Rightarrow> VertexAttribute \<Rightarrow> bool" where
  "rejected_before_enable maxVertexAttribs a =
     (sint (offset a) < 0 \<or> maxVertexAttribs \<le> index a
      \<or> 4 < sint (numComponents a) \<or> sint (numComponents a) \<le> 0)"

definition rejected_after_enable :: "VertexAttribute \<Rightarrow> bool" where
  "rejected_after_enable a = (\<not> (compatible a \<and> type a \<in> VertexAttribType_enumerators))"

definition accepted :: "c_int \<Rightarrow> VertexAttribute \<Rightarrow> bool" where
  "accepted maxVertexAttribs a =
     (\<not> rejected_before_enable maxVertexAttribs a \<and> \<not> rejected_after_enable a)"

text \<open>
  The object and the driver after lines 66 to 79 of a call that passes the first three
  checks: the limit queried, the object bound, every index of the previous configuration
  disabled, the list of enabled indices empty.
\<close>

definition prepared :: "VertexArray \<times> driver \<Rightarrow> VertexArray \<times> driver" where
  "prepared s =
     (case s of (va, gl) \<Rightarrow>
        (va\<lparr>enabledVertexAttribs := []\<rparr>,
         gl\<lparr>calls := calls gl
                  @ [glGetIntegerv_MAX_VERTEX_ATTRIBS, glBindVertexArray (handle va)]
                  @ map glDisableVertexAttribArray (enabledVertexAttribs va)\<rparr>))"

section \<open>Example values\<close>

text \<open>A descriptor of \<open>n\<close> floats, read as floats, at the index \<open>i\<close> and the offset \<open>off\<close>.\<close>

definition float_attribute :: "c_uint \<Rightarrow> c_int \<Rightarrow> c_int \<Rightarrow> VertexAttribute" where
  "float_attribute i n off =
     \<lparr>index = i, numComponents = n, type = VertexAttribType_Float,
      interp = VertexAttribInterp_Float, normalized = False, offset = off\<rparr>"

section \<open>Basic facts\<close>

lemmas VertexAttribType_defs =
  VertexAttribType_Byte_def VertexAttribType_UnsignedByte_def VertexAttribType_Short_def
  VertexAttribType_UnsignedShort_def VertexAttribType_Int_def VertexAttribType_UnsignedInt_def
  VertexAttribType_HalfFloat_def VertexAttribType_Float_def VertexAttribType_Double_def
  VertexAttribType_Fixed_def

lemmas VertexAttribInterp_defs = VertexAttribInterp_Float_def VertexAttribInterp_Integer_def

lemma uint_scast_take_bit: "uint (int_to_size_t x) = take_bit 64 (sint x)"
  unfolding int_to_size_t_def
  by (subst scast_eq) (simp only: uint_word_of_int_eq len_bit0 len_num1, simp)

lemma sint_c_int_bounds: "- (2 ^ 31) \<le> sint (x :: c_int)" "sint (x :: c_int) < 2 ^ 31"
  using sint_ge [of x] sint_lt [of x] by simp_all

lemma uint_int_to_size_t_nonneg: "0 \<le> sint x \<Longrightarrow> uint (int_to_size_t x) = sint x"
proof -
  assume "0 \<le> sint x"
  moreover have "sint x < 2 ^ 64" using sint_c_int_bounds(2) [of x] by simp
  ultimately have "sint x mod 2 ^ 64 = sint x" by (rule mod_pos_pos_trivial)
  then show ?thesis by (simp only: uint_scast_take_bit take_bit_eq_mod)
qed

lemma uint_int_to_size_t_neg: "sint x < 0 \<Longrightarrow> uint (int_to_size_t x) = 2 ^ 64 + sint x"
proof -
  assume neg: "sint x < 0"
  have "0 \<le> sint x + 2 ^ 64" using sint_c_int_bounds(1) [of x] by simp
  moreover have "sint x + 2 ^ 64 < 2 ^ 64" using neg by simp
  ultimately have "(sint x + 2 ^ 64) mod 2 ^ 64 = sint x + 2 ^ 64" by (rule mod_pos_pos_trivial)
  then have "sint x mod 2 ^ 64 = sint x + 2 ^ 64" by simp
  then show ?thesis by (simp only: uint_scast_take_bit take_bit_eq_mod add.commute)
qed

lemma sint_attrib_sum:
  "sint (x + b * c :: c_int) = signed_take_bit 31 (sint x + sint b * sint c)"
proof -
  have "x + b * c = word_of_int (sint x + sint b * sint c)"
    by simp
  then have "sint (x + b * c) = sint (word_of_int (sint x + sint b * sint c) :: 32 word)"
    by simp
  also have "\<dots> = signed_take_bit 31 (sint x + sint b * sint c)"
    by (simp only: sint_sbintrunc') simp
  finally show ?thesis .
qed

lemma signed_take_bit_31_self:
  "- (2 ^ 31) \<le> k \<Longrightarrow> k < 2 ^ 31 \<Longrightarrow> signed_take_bit 31 (k :: int) = k"
  by (simp add: signed_take_bit_int_eq_self)

lemma signed_take_bit_31_wrap:
  "2 ^ 31 \<le> k \<Longrightarrow> k < 2 ^ 32 \<Longrightarrow> signed_take_bit 31 (k :: int) = k - 2 ^ 32"
proof -
  assume a: "2 ^ 31 \<le> k" "k < 2 ^ 32"
  have "signed_take_bit 31 k = take_bit 32 (k + 2 ^ 31) - 2 ^ 31"
    by (simp add: signed_take_bit_eq_take_bit_shift)
  moreover have "take_bit 32 (k + 2 ^ 31) = (k + 2 ^ 31) mod 2 ^ 32"
    by (simp only: take_bit_eq_mod)
  moreover have "(k + 2 ^ 31) mod 2 ^ 32 = k + 2 ^ 31 - 2 ^ 32"
  proof -
    have "(k + 2 ^ 31 - 2 ^ 32) mod 2 ^ 32 = k + 2 ^ 31 - 2 ^ 32"
      by (rule mod_pos_pos_trivial) (use a in simp_all)
    then show ?thesis by (metis mod_diff_right_eq mod_self diff_zero)
  qed
  ultimately show ?thesis by simp
qed

lemma typeToBytes_enumerator:
  "t \<in> VertexAttribType_enumerators \<Longrightarrow> \<exists>b. typeToBytes t = Inr b \<and> 1 \<le> sint b \<and> sint b \<le> 8"
  by (auto simp: VertexAttribType_enumerators_def typeToBytes_def VertexAttribType_defs)

lemma typeToBytes_Inr_enumerator:
  "typeToBytes t = Inr b \<Longrightarrow> t \<in> VertexAttribType_enumerators \<and> 1 \<le> sint b \<and> sint b \<le> 8"
  by (auto simp: VertexAttribType_enumerators_def typeToBytes_def split: if_splits)

lemma toGLenum_enumerator:
  "t \<in> VertexAttribType_enumerators \<Longrightarrow> \<exists>g. toGLenum t = Inr g"
  by (auto simp: VertexAttribType_enumerators_def toGLenum_def VertexAttribType_defs)

text \<open>A valid attribute: size between 1 and 32, end between 1 and 2^31 + 31.\<close>

lemma valid_attribute_bytes:
  assumes "valid_attribute a"
  shows "\<exists>b. typeToBytes (type a) = Inr b \<and> attrib_bytes a = sint b * sint (numComponents a)
           \<and> 1 \<le> attrib_bytes a \<and> attrib_bytes a \<le> 32"
proof -
  from assms obtain b where b: "typeToBytes (type a) = Inr b" "1 \<le> sint b" "sint b \<le> 8"
    using typeToBytes_enumerator unfolding valid_attribute_def by blast
  from assms have n: "1 \<le> sint (numComponents a)" "sint (numComponents a) \<le> 4"
    unfolding valid_attribute_def by simp_all
  have "1 * 1 \<le> sint b * sint (numComponents a)"
    using b(2) n(1) by (intro mult_mono) simp_all
  moreover have "sint b * sint (numComponents a) \<le> 8 * 4"
    using b n by (intro mult_mono) simp_all
  ultimately show ?thesis using b(1) by (auto simp: attrib_bytes_def)
qed

section \<open>The pure functions\<close>

text \<open>
  C9. On each of the ten enumerators \<open>typeToBytes\<close> returns the documented width (1 for the
  8-bit types, 2 for the 16-bit types and the half float, 4 for the 32-bit types, the float
  and the fixed, 8 for the double) and \<open>toGLenum\<close> returns the native token of the same
  name; on a value that is no enumerator both throw \<open>std::invalid_argument\<close>.
\<close>

theorem typeToBytes_toGLenum_table:
  "typeToBytes VertexAttribType_Byte = Inr 1
   \<and> typeToBytes VertexAttribType_UnsignedByte = Inr 1
   \<and> typeToBytes VertexAttribType_Short = Inr 2
   \<and> typeToBytes VertexAttribType_UnsignedShort = Inr 2
   \<and> typeToBytes VertexAttribType_HalfFloat = Inr 2
   \<and> typeToBytes VertexAttribType_Int = Inr 4
   \<and> typeToBytes VertexAttribType_UnsignedInt = Inr 4
   \<and> typeToBytes VertexAttribType_Float = Inr 4
   \<and> typeToBytes VertexAttribType_Fixed = Inr 4
   \<and> typeToBytes VertexAttribType_Double = Inr 8
   \<and> toGLenum VertexAttribType_Byte = Inr GL_BYTE
   \<and> toGLenum VertexAttribType_UnsignedByte = Inr GL_UNSIGNED_BYTE
   \<and> toGLenum VertexAttribType_Short = Inr GL_SHORT
   \<and> toGLenum VertexAttribType_UnsignedShort = Inr GL_UNSIGNED_SHORT
   \<and> toGLenum VertexAttribType_Int = Inr GL_INT
   \<and> toGLenum VertexAttribType_UnsignedInt = Inr GL_UNSIGNED_INT
   \<and> toGLenum VertexAttribType_HalfFloat = Inr GL_HALF_FLOAT
   \<and> toGLenum VertexAttribType_Float = Inr GL_FLOAT
   \<and> toGLenum VertexAttribType_Double = Inr GL_DOUBLE
   \<and> toGLenum VertexAttribType_Fixed = Inr GL_FIXED
   \<and> (t \<notin> VertexAttribType_enumerators \<longrightarrow>
        typeToBytes t = Inl (invalid_argument ''Given VertexAttribType is invalid!'')
        \<and> toGLenum t = Inl (invalid_argument ''Given VertexAttribType is invalid!''))"
  by (simp add: typeToBytes_def toGLenum_def VertexAttribType_defs VertexAttribType_enumerators_def)

theorem typeToBytes_toGLenum_table_witness:
  "(10 :: VertexAttribType) \<notin> VertexAttribType_enumerators
   \<and> typeToBytes 10 = Inl (invalid_argument ''Given VertexAttribType is invalid!'')
   \<and> toGLenum 10 = Inl (invalid_argument ''Given VertexAttribType is invalid!'')"
proof -
  have h: "(10 :: VertexAttribType) \<notin> VertexAttribType_enumerators"
    by (simp add: VertexAttribType_enumerators_def VertexAttribType_defs)
  with typeToBytes_toGLenum_table [of 10] show ?thesis by blast
qed

text \<open>
  C8. \<open>validateTypeInterpretation\<close> returns false exactly for the Integer interpretation
  with one of the types HalfFloat, Float, Double and Fixed, and then stores a message that
  names the type; for every other pair it returns true.
\<close>

theorem validateTypeInterpretation_false_iff:
  "(\<not> fst (validateTypeInterpretation t i e)) =
     (i = VertexAttribInterp_Integer
      \<and> t \<in> {VertexAttribType_HalfFloat, VertexAttribType_Float, VertexAttribType_Double,
              VertexAttribType_Fixed})
   \<and> validateTypeInterpretation VertexAttribType_HalfFloat VertexAttribInterp_Integer e =
       (False, ''Can't use type HalfFloat with Integer interpretation!'')
   \<and> validateTypeInterpretation VertexAttribType_Float VertexAttribInterp_Integer e =
       (False, ''Can't use type Float with Integer interpretation!'')
   \<and> validateTypeInterpretation VertexAttribType_Double VertexAttribInterp_Integer e =
       (False, ''Can't use type Double with Integer interpretation!'')
   \<and> validateTypeInterpretation VertexAttribType_Fixed VertexAttribInterp_Integer e =
       (False, ''Can't use type Fixed with Integer interpretation!'')"
  by (simp add: validateTypeInterpretation_def VertexAttribType_defs)

section \<open>The early exits of \<open>setAttributes\<close>\<close>

text \<open>
  C4. With a stride that is not positive \<open>setAttributes\<close> throws \<open>std::invalid_argument\<close>
  and leaves the object, its enabled indices among the rest, and the driver as they were.
\<close>

theorem setAttributes_nonpositive_stride:
  "sint stride \<le> 0 \<Longrightarrow>
   setAttributes DEBUG_MODE attribs stride (va, gl) =
     (Inl (invalid_argument ''stride must be greater than 0!''), va, gl)"
  by (simp add: setAttributes_def)

theorem setAttributes_nonpositive_stride_witness:
  "sint (0 :: c_int) \<le> 0
   \<and> setAttributes False [] 0 (\<lparr>handle = 1, enabledVertexAttribs = [5]\<rparr>, \<lparr>max_vertex_attribs = Some 16, calls = []\<rparr>) =
     (Inl (invalid_argument ''stride must be greater than 0!''),
      \<lparr>handle = 1, enabledVertexAttribs = [5]\<rparr>, \<lparr>max_vertex_attribs = Some 16, calls = []\<rparr>)"
proof -
  have h: "sint (0 :: c_int) \<le> 0" by simp
  from setAttributes_nonpositive_stride [OF h] h show ?thesis by blast
qed

text \<open>
  C7. When the query of the platform limit succeeds and the layout has more descriptors
  than the limit, \<open>setAttributes\<close> (called with a positive stride) throws
  \<open>std::runtime_error\<close> with a message that holds the number of descriptors and the limit
  in decimal. The object is unchanged, and the only native call made is the query: nothing
  has been bound, disabled or enabled.
\<close>

theorem setAttributes_too_many_attributes:
  "0 < sint stride \<Longrightarrow> max_vertex_attribs gl = Some m \<Longrightarrow> 0 \<le> sint m \<Longrightarrow>
   nat (sint m) < length attribs \<Longrightarrow>
   setAttributes DEBUG_MODE attribs stride (va, gl) =
     (Inl (runtime_error
            (''The current GPU does not support '' @ to_string (length attribs)
             @ '' vertex attributes. Max allowed are: '' @ to_string (nat (sint m))
             @ ''. At least 16 are guaranteed!'')),
      va, gl\<lparr>calls := calls gl @ [glGetIntegerv_MAX_VERTEX_ATTRIBS]\<rparr>)"
  by (simp add: setAttributes_def GL_CALL_def to_string_int_def unat_eq_nat_uint
      uint_int_to_size_t_nonneg)

theorem setAttributes_too_many_attributes_witness:
  "0 < sint (16 :: c_int) \<and> 0 \<le> sint (1 :: c_int)
   \<and> nat (sint (1 :: c_int)) < length [float_attribute 0 3 0, float_attribute 1 1 12]
   \<and> setAttributes True [float_attribute 0 3 0, float_attribute 1 1 12] 16
        (\<lparr>handle = 1, enabledVertexAttribs = [5]\<rparr>, \<lparr>max_vertex_attribs = Some 1, calls = []\<rparr>) =
     (Inl (runtime_error
            ''The current GPU does not support 2 vertex attributes. Max allowed are: 1. At least 16 are guaranteed!''),
      \<lparr>handle = 1, enabledVertexAttribs = [5]\<rparr>,
      \<lparr>max_vertex_attribs = Some 1, calls = [glGetIntegerv_MAX_VERTEX_ATTRIBS]\<rparr>)"
proof -
  have h1: "0 < sint (16 :: c_int)" and h3: "0 \<le> sint (1 :: c_int)"
    and h4: "nat (sint (1 :: c_int)) < length [float_attribute 0 3 0, float_attribute 1 1 12]"
    by simp_all
  have h2: "max_vertex_attribs \<lparr>max_vertex_attribs = Some 1, calls = []\<rparr> = Some (1 :: c_int)"
    by simp
  from setAttributes_too_many_attributes
         [OF h1 h2 h3 h4, of True "\<lparr>handle = 1, enabledVertexAttribs = [5]\<rparr>"] h1 h3 h4
  show ?thesis by (simp add: to_string.simps digit_char_def)
qed

section \<open>The moves\<close>

text \<open>
  C3. The move constructor and the move assignment hand over the handle only. The
  constructed object starts with no enabled index, the assigned object keeps the indices it
  had, and the source keeps its own: here the source has the index 0 enabled.
\<close>

theorem VertexArray_move_keeps_enabled_indices_behind:
  "VertexArray_move_construct \<lparr>handle = 1, enabledVertexAttribs = [0]\<rparr> =
     (\<lparr>handle = 1, enabledVertexAttribs = []\<rparr>, \<lparr>handle = 0, enabledVertexAttribs = [0]\<rparr>)
   \<and> VertexArray_move_assign \<lparr>handle = 2, enabledVertexAttribs = [3]\<rparr>
        \<lparr>handle = 1, enabledVertexAttribs = [0]\<rparr> =
     (\<lparr>handle = 1, enabledVertexAttribs = [3]\<rparr>, \<lparr>handle = 0, enabledVertexAttribs = [0]\<rparr>)"
  by (simp add: VertexArray_move_construct_def VertexArray_move_assign_def Buffer_move_def)

section \<open>The loop over the descriptors\<close>

lemma attrib_loop_accepted:
  assumes "accepted m a"
  shows "attrib_loop (a # rest) m n stride (va, gl) =
           attrib_loop rest m n stride
             (va\<lparr>enabledVertexAttribs := enabledVertexAttribs va @ [index a]\<rparr>,
              gl\<lparr>calls := calls gl @ attribute_calls stride a\<rparr>)"
proof -
  from assms have c: "fst (validateTypeInterpretation (type a) (interp a) [])"
    and t: "type a \<in> VertexAttribType_enumerators"
    and b: "\<not> sint (offset a) < 0" "\<not> m \<le> index a"
           "\<not> (4 < sint (numComponents a) \<or> sint (numComponents a) \<le> 0)"
    by (auto simp: accepted_def rejected_before_enable_def rejected_after_enable_def compatible_def)
  from t obtain g where g: "toGLenum (type a) = Inr g"
    using toGLenum_enumerator by blast
  from c obtain e where v: "validateTypeInterpretation (type a) (interp a) [] = (True, e)"
    by (cases "validateTypeInterpretation (type a) (interp a) []") auto
  show ?thesis
    using b g v by (simp add: attribute_calls_def GL_CALL_def Let_def)
qed

lemma attrib_loop_rejected_before:
  assumes "rejected_before_enable m a"
  shows "\<exists>msg. attrib_loop (a # rest) m n stride (va, gl) = (Inl (invalid_argument msg), va, gl)"
  using assms by (auto simp: rejected_before_enable_def)

lemma attrib_loop_rejected_after:
  assumes "\<not> rejected_before_enable m a" "rejected_after_enable a"
  shows "\<exists>msg. attrib_loop (a # rest) m n stride (va, gl) =
           (Inl (invalid_argument msg),
            va\<lparr>enabledVertexAttribs := enabledVertexAttribs va @ [index a]\<rparr>,
            gl\<lparr>calls := calls gl @ [glEnableVertexAttribArray (index a)]\<rparr>)"
proof -
  from assms(1) have b: "\<not> sint (offset a) < 0" "\<not> m \<le> index a"
           "\<not> (4 < sint (numComponents a) \<or> sint (numComponents a) \<le> 0)"
    by (auto simp: rejected_before_enable_def)
  obtain r e where v: "validateTypeInterpretation (type a) (interp a) [] = (r, e)"
    by (cases "validateTypeInterpretation (type a) (interp a) []") auto
  show ?thesis
  proof (cases r)
    case False
    with b v show ?thesis by (simp add: GL_CALL_def Let_def)
  next
    case True
    with v assms(2) have "type a \<notin> VertexAttribType_enumerators"
      by (simp add: rejected_after_enable_def compatible_def)
    then have "toGLenum (type a) = Inl (invalid_argument ''Given VertexAttribType is invalid!'')"
      by (simp add: toGLenum_def VertexAttribType_enumerators_def)
    with b v True show ?thesis by (simp add: GL_CALL_def Let_def)
  qed
qed

lemma attrib_loop_accepted_prefix:
  "\<forall>a\<in>set pre. accepted m a \<Longrightarrow>
   attrib_loop (pre @ rest) m n stride (va, gl) =
     attrib_loop rest m n stride
       (va\<lparr>enabledVertexAttribs := enabledVertexAttribs va @ map index pre\<rparr>,
        gl\<lparr>calls := calls gl @ concat (map (attribute_calls stride) pre)\<rparr>)"
proof (induction pre arbitrary: va gl)
  case Nil
  show ?case by simp
next
  case (Cons a pre)
  then have a: "accepted m a" and pre: "\<forall>a\<in>set pre. accepted m a" by simp_all
  have "attrib_loop ((a # pre) @ rest) m n stride (va, gl) =
          attrib_loop (pre @ rest) m n stride
            (va\<lparr>enabledVertexAttribs := enabledVertexAttribs va @ [index a]\<rparr>,
             gl\<lparr>calls := calls gl @ attribute_calls stride a\<rparr>)"
    by (simp only: append_Cons attrib_loop_accepted [OF a])
  also have "\<dots> = attrib_loop rest m n stride
       (va\<lparr>enabledVertexAttribs := enabledVertexAttribs va @ map index (a # pre)\<rparr>,
        gl\<lparr>calls := calls gl @ concat (map (attribute_calls stride) (a # pre))\<rparr>)"
    by (simp add: Cons.IH [OF pre])
  finally show ?case .
qed

lemma attrib_loop_success_accepted:
  "fst (attrib_loop as m n stride (va, gl)) = Inr () \<Longrightarrow> \<forall>a\<in>set as. accepted m a"
proof (induction as arbitrary: va gl)
  case Nil
  show ?case by simp
next
  case (Cons a as)
  have acc: "accepted m a"
  proof (rule ccontr)
    assume n: "\<not> accepted m a"
    show False
    proof (cases "rejected_before_enable m a")
      case True
      from attrib_loop_rejected_before [OF True, of as n stride va gl] Cons.prems
      show False by auto
    next
      case False
      with n have "rejected_after_enable a" by (simp add: accepted_def)
      from attrib_loop_rejected_after [OF False this, of as n stride va gl] Cons.prems
      show False by auto
    qed
  qed
  from Cons.prems have "fst (attrib_loop as m n stride
             (va\<lparr>enabledVertexAttribs := enabledVertexAttribs va @ [index a]\<rparr>,
              gl\<lparr>calls := calls gl @ attribute_calls stride a\<rparr>)) = Inr ()"
    by (simp only: attrib_loop_accepted [OF acc])
  from Cons.IH [OF this] acc show ?case by simp
qed

lemma fold_GL_CALL:
  "fold (\<lambda>i. GL_CALL (f i)) xs gl = gl\<lparr>calls := calls gl @ map f xs\<rparr>"
  by (induction xs arbitrary: gl) (simp_all add: GL_CALL_def)

lemma setAttributes_reaches_loops:
  assumes "0 < sint stride" "max_vertex_attribs gl = Some m" "0 \<le> sint m"
    "length attribs \<le> nat (sint m)"
  shows "setAttributes DEBUG_MODE attribs stride (va, gl) =
     (case (if DEBUG_MODE then integrity_pass attribs stride else Inr ()) of
        Inl e \<Rightarrow> (Inl e, prepared (va, gl))
      | Inr _ \<Rightarrow> attrib_loop attribs m (length attribs) stride (prepared (va, gl)))"
  using assms
  by (simp add: setAttributes_def prepared_def bind_def fold_GL_CALL GL_CALL_def
      unat_eq_nat_uint uint_int_to_size_t_nonneg Let_def split: sum.splits)

lemma setAttributes_success_reached:
  assumes "fst (setAttributes DEBUG_MODE attribs stride (va, gl)) = Inr ()"
  shows "0 < sint stride \<and> (\<exists>m. max_vertex_attribs gl = Some m \<and> 0 \<le> sint m
           \<and> length attribs \<le> nat (sint m))"
proof -
  have s: "0 < sint stride"
    using assms by (auto simp: setAttributes_def split: if_splits)
  obtain m where m: "m = (case max_vertex_attribs gl of None \<Rightarrow> - 1 | Some m \<Rightarrow> m)" by simp
  have n: "0 \<le> sint m"
    using assms s m by (auto simp: setAttributes_def Let_def split: if_splits)
  then have some: "max_vertex_attribs gl = Some m"
    using m by (cases "max_vertex_attribs gl") auto
  have "length attribs \<le> nat (sint m)"
    using assms s m n
    by (auto simp: setAttributes_def Let_def unat_eq_nat_uint uint_int_to_size_t_nonneg
        split: if_splits)
  with s n some show ?thesis by blast
qed

lemma attrib_loop_all_accepted:
  assumes "\<forall>a\<in>set as. accepted m a"
  shows "attrib_loop as m n stride (va, gl) =
     (Inr (), va\<lparr>enabledVertexAttribs := enabledVertexAttribs va @ map index as\<rparr>,
      gl\<lparr>calls := calls gl @ concat (map (attribute_calls stride) as)\<rparr>)"
  using attrib_loop_accepted_prefix [OF assms, of "[]" n stride va gl] by simp


lemma setAttributes_success_state:
  assumes "setAttributes DEBUG_MODE attribs stride (va, gl) = (Inr (), va', gl')"
  shows "va' = va\<lparr>enabledVertexAttribs := map index attribs\<rparr>
     \<and> gl' = gl\<lparr>calls := calls gl
                 @ [glGetIntegerv_MAX_VERTEX_ATTRIBS, glBindVertexArray (handle va)]
                 @ map glDisableVertexAttribArray (enabledVertexAttribs va)
                 @ concat (map (attribute_calls stride) attribs)\<rparr>"
proof -
  from assms have ok: "fst (setAttributes DEBUG_MODE attribs stride (va, gl)) = Inr ()" by simp
  from setAttributes_success_reached [OF ok] obtain m where
    r: "0 < sint stride" "max_vertex_attribs gl = Some m" "0 \<le> sint m"
       "length attribs \<le> nat (sint m)"
    by blast
  note eq = setAttributes_reaches_loops [OF r, of DEBUG_MODE va]
  have loop: "setAttributes DEBUG_MODE attribs stride (va, gl) =
      attrib_loop attribs m (length attribs) stride (prepared (va, gl))"
    using ok eq by (auto split: sum.splits if_splits)
  obtain pva pgl where p: "prepared (va, gl) = (pva, pgl)"
    by (cases "prepared (va, gl)") auto
  from loop ok p have "fst (attrib_loop attribs m (length attribs) stride (pva, pgl)) = Inr ()"
    by simp
  from attrib_loop_success_accepted [OF this]
  have "attrib_loop attribs m (length attribs) stride (pva, pgl) =
     (Inr (), pva\<lparr>enabledVertexAttribs := enabledVertexAttribs pva @ map index attribs\<rparr>,
      pgl\<lparr>calls := calls pgl @ concat (map (attribute_calls stride) attribs)\<rparr>)"
    by (rule attrib_loop_all_accepted)
  with loop p assms show ?thesis
    by (auto simp: prepared_def)
qed

section \<open>The debug pass\<close>

lemma attrib_end_valid:
  assumes "valid_attribute a"
  shows "sint (offset a) < attrib_end a" "attrib_end a < 2 ^ 31 + 32" "0 < attrib_end a"
proof -
  from valid_attribute_bytes [OF assms] have "1 \<le> attrib_bytes a" "attrib_bytes a \<le> 32"
    by auto
  moreover have "0 \<le> sint (offset a)" using assms by (simp add: valid_attribute_def)
  moreover have "sint (offset a) < 2 ^ 31" by (rule sint_c_int_bounds)
  ultimately show "sint (offset a) < attrib_end a" "attrib_end a < 2 ^ 31 + 32" "0 < attrib_end a"
    by (simp_all add: attrib_end_def)
qed

lemma sint_sum_attrib_end:
  assumes "typeToBytes (type a) = Inr b"
  shows "sint (offset a + b * numComponents a) = signed_take_bit 31 (attrib_end a)"
  using assms by (simp add: sint_attrib_sum attrib_end_def attrib_bytes_def)

text \<open>The value of \<open>end\<close> for a sum that fits an \<open>int\<close>.\<close>

lemma uint_end_nonneg:
  assumes "typeToBytes (type a) = Inr b" "0 \<le> attrib_end a" "attrib_end a < 2 ^ 31"
  shows "uint (int_to_size_t (offset a + b * numComponents a)) = attrib_end a"
proof -
  have "sint (offset a + b * numComponents a) = attrib_end a"
    using assms by (simp add: sint_sum_attrib_end signed_take_bit_31_self)
  with assms(2) show ?thesis by (simp add: uint_int_to_size_t_nonneg)
qed

lemma uint_end_neg:
  assumes "typeToBytes (type a) = Inr b" "- (2 ^ 31) \<le> attrib_end a" "attrib_end a < 0"
  shows "uint (int_to_size_t (offset a + b * numComponents a)) = 2 ^ 64 + attrib_end a"
proof -
  have "sint (offset a + b * numComponents a) = attrib_end a"
    using assms by (simp add: sint_sum_attrib_end signed_take_bit_31_self)
  with assms(3) show ?thesis by (simp add: uint_int_to_size_t_neg)
qed

lemma uint_end_wrapped:
  assumes "typeToBytes (type a) = Inr b" "2 ^ 31 \<le> attrib_end a" "attrib_end a < 2 ^ 32"
  shows "uint (int_to_size_t (offset a + b * numComponents a)) = 2 ^ 64 + attrib_end a - 2 ^ 32"
proof -
  have s: "sint (offset a + b * numComponents a) = attrib_end a - 2 ^ 32"
    using assms by (simp add: sint_sum_attrib_end signed_take_bit_31_wrap)
  with assms(3) have "sint (offset a + b * numComponents a) < 0" by simp
  then show ?thesis using s by (simp add: uint_int_to_size_t_neg)
qed

lemma stride_test_negative_end:
  assumes "typeToBytes (type a) = Inr b" "- (2 ^ 31) \<le> attrib_end a" "attrib_end a < 0"
    "0 < sint stride"
  shows "int_to_size_t stride < int_to_size_t (offset a + b * numComponents a)"
proof -
  have "uint (int_to_size_t stride) = sint stride"
    using assms(4) by (simp add: uint_int_to_size_t_nonneg)
  moreover have "sint stride < 2 ^ 31" by (rule sint_c_int_bounds)
  ultimately show ?thesis
    using assms by (simp add: word_less_def uint_end_neg)
qed

lemma stride_test_valid:
  assumes "valid_attribute a" "typeToBytes (type a) = Inr b" "0 < sint stride"
  shows "(int_to_size_t stride < int_to_size_t (offset a + b * numComponents a)) =
           exceeds_stride a stride"
proof -
  have s: "uint (int_to_size_t stride) = sint stride"
    using assms(3) by (simp add: uint_int_to_size_t_nonneg)
  have sb: "sint stride < 2 ^ 31" by (rule sint_c_int_bounds)
  note e = attrib_end_valid [OF assms(1)]
  show ?thesis
  proof (cases "attrib_end a < 2 ^ 31")
    case True
    with e(3) have "uint (int_to_size_t (offset a + b * numComponents a)) = attrib_end a"
      by (intro uint_end_nonneg [OF assms(2)]) simp_all
    with s show ?thesis by (simp add: word_less_def exceeds_stride_def)
  next
    case False
    with e(2) have "uint (int_to_size_t (offset a + b * numComponents a)) =
        2 ^ 64 + attrib_end a - 2 ^ 32"
      by (intro uint_end_wrapped [OF assms(2)]) simp_all
    with s sb False show ?thesis by (simp add: word_less_def exceeds_stride_def)
  qed
qed

lemma overlap_test_valid:
  assumes "valid_attribute a" "typeToBytes (type a) = Inr b" "\<not> exceeds_stride a stride"
    "0 \<le> sint (offset c)"
  shows "(sint (offset a) \<le> sint (offset c)
          \<and> int_to_size_t (offset c) < int_to_size_t (offset a + b * numComponents a)) =
           overlap_found a c"
proof -
  have sb: "sint stride < 2 ^ 31" by (rule sint_c_int_bounds)
  with assms(3) have "attrib_end a < 2 ^ 31" by (simp add: exceeds_stride_def)
  moreover have "0 \<le> attrib_end a" using attrib_end_valid(3) [OF assms(1)] by simp
  ultimately have "uint (int_to_size_t (offset a + b * numComponents a)) = attrib_end a"
    by (intro uint_end_nonneg [OF assms(2)])
  moreover have "uint (int_to_size_t (offset c)) = sint (offset c)"
    using assms(4) by (simp add: uint_int_to_size_t_nonneg)
  ultimately show ?thesis by (simp add: word_less_def overlap_found_def)
qed

lemma ranges_overlap_iff_found:
  assumes "valid_attribute a" "valid_attribute c"
  shows "ranges_overlap a c = (overlap_found a c \<or> overlap_found c a)"
  using attrib_end_valid(1) [OF assms(1)] attrib_end_valid(1) [OF assms(2)]
  by (auto simp: ranges_overlap_def overlap_found_def)

text \<open>\<open>ranges_overlap\<close> says that the two half-open intervals have a point in common.\<close>

lemma ranges_overlap_iff_common_byte:
  "ranges_overlap a c =
     ({sint (offset a)..<attrib_end a} \<inter> {sint (offset c)..<attrib_end c} \<noteq> {})"
proof -
  have "{sint (offset a)..<attrib_end a} \<inter> {sint (offset c)..<attrib_end c} =
      {max (sint (offset a)) (sint (offset c))..<min (attrib_end a) (attrib_end c)}"
    by auto
  then show ?thesis by (auto simp: ranges_overlap_def)
qed

lemma overlap_loop_Inr_iff:
  "(overlap_loop attribs i e js = Inr ()) =
     (\<forall>j\<in>set js. j = i \<or> \<not> (sint (offset (attribs ! i)) \<le> sint (offset (attribs ! j))
                               \<and> int_to_size_t (offset (attribs ! j)) < e))"
  by (induction js) auto

lemma overlap_loop_Inl:
  "overlap_loop attribs i e js = Inl err \<Longrightarrow>
     \<exists>j\<in>set js. j \<noteq> i \<and> sint (offset (attribs ! i)) \<le> sint (offset (attribs ! j))
        \<and> int_to_size_t (offset (attribs ! j)) < e \<and> err = overlap_error i j"
  by (induction js) (auto simp: overlap_error_def split: if_splits)

lemma integrity_loop_append:
  "integrity_loop attribs stride (xs @ ys) =
     (case integrity_loop attribs stride xs of
        Inl e \<Rightarrow> Inl e
      | Inr _ \<Rightarrow> integrity_loop attribs stride ys)"
  by (induction xs) (auto simp: Let_def split: sum.splits)

lemma integrity_loop_negative_end:
  assumes "type (attribs ! k) \<in> VertexAttribType_enumerators"
    "- (2 ^ 31) \<le> attrib_end (attribs ! k)" "attrib_end (attribs ! k) < 0" "0 < sint stride"
  shows "integrity_loop attribs stride (k # rest) = Inl stride_error"
proof -
  from assms(1) obtain b where b: "typeToBytes (type (attribs ! k)) = Inr b"
    using typeToBytes_enumerator by blast
  from stride_test_negative_end [OF b assms(2,3,4)] b show ?thesis
    by (simp add: stride_error_def)
qed

text \<open>One round of the outer loop on a layout of valid descriptors.\<close>

lemma integrity_loop_round:
  assumes v: "\<forall>a\<in>set attribs. valid_attribute a" and s: "0 < sint stride"
    and i: "i < length attribs"
  obtains
    (exceeds) "exceeds_stride (attribs ! i) stride"
      "integrity_loop attribs stride (i # is) = Inl stride_error"
  | (overlap) j where "\<not> exceeds_stride (attribs ! i) stride" "j < length attribs" "j \<noteq> i"
      "overlap_found (attribs ! i) (attribs ! j)"
      "integrity_loop attribs stride (i # is) = Inl (overlap_error i j)"
  | (pass) "\<not> exceeds_stride (attribs ! i) stride"
      "\<forall>j<length attribs. j \<noteq> i \<longrightarrow> \<not> overlap_found (attribs ! i) (attribs ! j)"
      "integrity_loop attribs stride (i # is) = integrity_loop attribs stride is"
proof -
  let ?a = "attribs ! i"
  from v i have va: "valid_attribute ?a" by simp
  then obtain b where b: "typeToBytes (type ?a) = Inr b"
    using valid_attribute_bytes by blast
  let ?e = "int_to_size_t (offset ?a + b * numComponents ?a)"
  note st = stride_test_valid [OF va b s]
  show thesis
  proof (cases "exceeds_stride ?a stride")
    case True
    with st b have "integrity_loop attribs stride (i # is) = Inl stride_error"
      by (simp add: stride_error_def)
    with True show thesis by (rule exceeds)
  next
    case False
    have ot: "(sint (offset ?a) \<le> sint (offset (attribs ! j)) \<and> int_to_size_t (offset (attribs ! j)) < ?e)
                = overlap_found ?a (attribs ! j)" if "j < length attribs" for j
    proof -
      from v that have "valid_attribute (attribs ! j)" by simp
      then have "0 \<le> sint (offset (attribs ! j))" by (simp add: valid_attribute_def)
      then show ?thesis by (rule overlap_test_valid [OF va b False])
    qed
    show thesis
    proof (cases "overlap_loop attribs i ?e [0..<length attribs]")
      case (Inl err)
      from overlap_loop_Inl [OF Inl] obtain j where
        j: "j < length attribs" "j \<noteq> i"
           "sint (offset ?a) \<le> sint (offset (attribs ! j)) \<and> int_to_size_t (offset (attribs ! j)) < ?e"
           "err = overlap_error i j"
        by auto
      from j(3) ot [OF j(1)] have f: "overlap_found ?a (attribs ! j)" by simp
      from Inl j(4) st False b
      have "integrity_loop attribs stride (i # is) = Inl (overlap_error i j)"
        by simp
      with False j(1,2) f show thesis by (rule overlap)
    next
      case (Inr u)
      then have "overlap_loop attribs i ?e [0..<length attribs] = Inr ()" by simp
      then have n: "\<forall>j<length attribs. j \<noteq> i \<longrightarrow> \<not> overlap_found ?a (attribs ! j)"
        using ot by (auto simp: overlap_loop_Inr_iff)
      from Inr st False b
      have "integrity_loop attribs stride (i # is) = integrity_loop attribs stride is"
        by simp
      with False n show thesis by (rule pass)
    qed
  qed
qed

lemma integrity_loop_Inr_iff:
  assumes v: "\<forall>a\<in>set attribs. valid_attribute a" and s: "0 < sint stride"
  shows "\<forall>i\<in>set is. i < length attribs \<Longrightarrow>
     (integrity_loop attribs stride is = Inr ()) =
       (\<forall>i\<in>set is. \<not> exceeds_stride (attribs ! i) stride
           \<and> (\<forall>j<length attribs. j \<noteq> i \<longrightarrow> \<not> overlap_found (attribs ! i) (attribs ! j)))"
proof (induction "is")
  case Nil
  show ?case by simp
next
  case (Cons i "is")
  then have i: "i < length attribs" and rest: "\<forall>i\<in>set is. i < length attribs" by simp_all
  note IH = Cons.IH [OF rest]
  show ?case
  proof (rule integrity_loop_round [OF v s i, of "is"], goal_cases)
    case 1
    then show ?case by simp
  next
    case (2 j)
    then show ?case by auto
  next
    case 3
    then show ?case using IH by simp
  qed
qed

lemma integrity_loop_Inl:
  assumes v: "\<forall>a\<in>set attribs. valid_attribute a" and s: "0 < sint stride"
  shows "\<forall>i\<in>set is. i < length attribs \<Longrightarrow> integrity_loop attribs stride is = Inl err \<Longrightarrow>
     (err = stride_error \<and> (\<exists>i\<in>set is. exceeds_stride (attribs ! i) stride))
     \<or> (\<exists>i\<in>set is. \<exists>j<length attribs. j \<noteq> i
           \<and> overlap_found (attribs ! i) (attribs ! j) \<and> err = overlap_error i j)"
proof (induction "is")
  case Nil
  then show ?case by simp
next
  case (Cons i "is")
  then have i: "i < length attribs" and rest: "\<forall>i\<in>set is. i < length attribs" by simp_all
  show ?case
  proof (rule integrity_loop_round [OF v s i, of "is"], goal_cases)
    case 1
    with Cons.prems(2) show ?case by auto
  next
    case (2 j)
    with Cons.prems(2) show ?case by auto
  next
    case 3
    with Cons.prems(2) have "integrity_loop attribs stride is = Inl err" by simp
    from Cons.IH [OF rest this] show ?case by auto
  qed
qed

lemma limit_test_numbers:
  assumes "0 \<le> sint m"
  shows "(m \<le> i) = (nat (sint m) \<le> unat (i :: c_uint))"
proof -
  have "uint m = uint (word_of_int (sint m) :: c_int)" by simp
  also have "\<dots> = take_bit 32 (sint m)" by (simp only: uint_word_of_int_eq) simp
  also have "\<dots> = sint m mod 2 ^ 32" by (simp only: take_bit_eq_mod)
  also have "\<dots> = sint m"
    using assms sint_c_int_bounds(2) [of m] by (intro mod_pos_pos_trivial) simp_all
  finally have u: "uint m = sint m" .
  have "unat m = nat (uint m)" by (rule unat_eq_nat_uint)
  then have "unat m = nat (sint m)" by (simp only: u)
  then show ?thesis by (simp only: word_le_nat_alt)
qed

lemma accepted_if_valid:
  assumes "valid_attribute a" "0 \<le> sint m" "unat (index a) < nat (sint m)" "compatible a"
  shows "accepted m a"
  using assms limit_test_numbers [OF assms(2), of "index a"]
  by (auto simp: accepted_def rejected_before_enable_def rejected_after_enable_def
      valid_attribute_def)

lemma no_overlap_found_iff:
  assumes v: "\<forall>a\<in>set attribs. valid_attribute a"
  shows "(\<forall>i<length attribs. \<forall>j<length attribs. j \<noteq> i \<longrightarrow>
            \<not> overlap_found (attribs ! i) (attribs ! j)) =
         (\<forall>i<length attribs. \<forall>j<length attribs. i \<noteq> j \<longrightarrow>
            \<not> ranges_overlap (attribs ! i) (attribs ! j))"
proof -
  have r: "ranges_overlap (attribs ! i) (attribs ! j) =
      (overlap_found (attribs ! i) (attribs ! j) \<or> overlap_found (attribs ! j) (attribs ! i))"
    if "i < length attribs" "j < length attribs" for i j
    using v that by (intro ranges_overlap_iff_found) simp_all
  show ?thesis
  proof
    assume a: "\<forall>i<length attribs. \<forall>j<length attribs. j \<noteq> i \<longrightarrow>
            \<not> overlap_found (attribs ! i) (attribs ! j)"
    show "\<forall>i<length attribs. \<forall>j<length attribs. i \<noteq> j \<longrightarrow>
            \<not> ranges_overlap (attribs ! i) (attribs ! j)"
      using a r by auto
  next
    assume a: "\<forall>i<length attribs. \<forall>j<length attribs. i \<noteq> j \<longrightarrow>
            \<not> ranges_overlap (attribs ! i) (attribs ! j)"
    show "\<forall>i<length attribs. \<forall>j<length attribs. j \<noteq> i \<longrightarrow>
            \<not> overlap_found (attribs ! i) (attribs ! j)"
      using a r by blast
  qed
qed

lemma integrity_pass_Inr_iff:
  assumes v: "\<forall>a\<in>set attribs. valid_attribute a" and s: "0 < sint stride"
  shows "(integrity_pass attribs stride = Inr ()) =
     ((\<forall>a\<in>set attribs. \<not> exceeds_stride a stride)
      \<and> (\<forall>i<length attribs. \<forall>j<length attribs. i \<noteq> j \<longrightarrow>
            \<not> ranges_overlap (attribs ! i) (attribs ! j)))"
proof -
  have "(integrity_pass attribs stride = Inr ()) =
     (\<forall>i\<in>set [0..<length attribs]. \<not> exceeds_stride (attribs ! i) stride
           \<and> (\<forall>j<length attribs. j \<noteq> i \<longrightarrow> \<not> overlap_found (attribs ! i) (attribs ! j)))"
    unfolding integrity_pass_def by (rule integrity_loop_Inr_iff [OF v s]) simp
  also have "\<dots> = ((\<forall>i<length attribs. \<not> exceeds_stride (attribs ! i) stride)
      \<and> (\<forall>i<length attribs. \<forall>j<length attribs. j \<noteq> i \<longrightarrow>
            \<not> overlap_found (attribs ! i) (attribs ! j)))"
    by auto
  also have "(\<forall>i<length attribs. \<not> exceeds_stride (attribs ! i) stride) =
      (\<forall>a\<in>set attribs. \<not> exceeds_stride a stride)"
    by (simp add: all_set_conv_all_nth)
  finally show ?thesis by (simp only: no_overlap_found_iff [OF v])
qed

lemma integrity_pass_Inl:
  assumes v: "\<forall>a\<in>set attribs. valid_attribute a" and s: "0 < sint stride"
    and f: "integrity_pass attribs stride = Inl err"
  shows "(err = stride_error \<and> (\<exists>a\<in>set attribs. exceeds_stride a stride))
     \<or> (\<exists>i<length attribs. \<exists>j<length attribs. i \<noteq> j
           \<and> ranges_overlap (attribs ! i) (attribs ! j) \<and> err = overlap_error i j)"
proof -
  have "\<forall>i\<in>set [0..<length attribs]. i < length attribs" by simp
  from integrity_loop_Inl [OF v s this f [unfolded integrity_pass_def]]
  show ?thesis
  proof
    assume "err = stride_error \<and> (\<exists>i\<in>set [0..<length attribs]. exceeds_stride (attribs ! i) stride)"
    then show ?thesis by auto
  next
    assume "\<exists>i\<in>set [0..<length attribs]. \<exists>j<length attribs. j \<noteq> i
           \<and> overlap_found (attribs ! i) (attribs ! j) \<and> err = overlap_error i j"
    then obtain i j where ij: "i < length attribs" "j < length attribs" "j \<noteq> i"
      "overlap_found (attribs ! i) (attribs ! j)" "err = overlap_error i j"
      by auto
    from v ij(1,2) have "ranges_overlap (attribs ! i) (attribs ! j) =
      (overlap_found (attribs ! i) (attribs ! j) \<or> overlap_found (attribs ! j) (attribs ! i))"
      by (intro ranges_overlap_iff_found) simp_all
    with ij show ?thesis by auto
  qed
qed

section \<open>A successful call\<close>

text \<open>
  C1. Take a layout and a stride that meet the documented preconditions: the stride is
  positive; the limit query succeeds and the layout has no more descriptors than the limit;
  every descriptor has an offset that is not negative, between 1 and 4 components, a type
  of the enumeration that is compatible with its interpretation, and an index below the
  limit; and, in a debug build, no descriptor ends beyond the stride and no two byte ranges
  overlap. Then \<open>setAttributes\<close> throws nothing, and afterwards the enabled indices of the
  object are the indices of the layout, in the order of the layout.
\<close>

theorem setAttributes_valid_layout:
  assumes "0 < sint stride" "max_vertex_attribs gl = Some m" "0 \<le> sint m"
    "length attribs \<le> nat (sint m)"
    "\<forall>a\<in>set attribs. valid_attribute a \<and> unat (index a) < nat (sint m) \<and> compatible a"
    "DEBUG_MODE \<longrightarrow>
       (\<forall>a\<in>set attribs. \<not> exceeds_stride a stride)
       \<and> (\<forall>i<length attribs. \<forall>j<length attribs. i \<noteq> j \<longrightarrow>
             \<not> ranges_overlap (attribs ! i) (attribs ! j))"
  shows "fst (setAttributes DEBUG_MODE attribs stride (va, gl)) = Inr ()
     \<and> enabledVertexAttribs (fst (snd (setAttributes DEBUG_MODE attribs stride (va, gl)))) =
         map index attribs
     \<and> set (enabledVertexAttribs (fst (snd (setAttributes DEBUG_MODE attribs stride (va, gl))))) =
         index ` set attribs"
proof -
  have v: "\<forall>a\<in>set attribs. valid_attribute a" using assms(5) by simp
  have pass: "(if DEBUG_MODE then integrity_pass attribs stride else Inr ()) = Inr ()"
    using assms(6) integrity_pass_Inr_iff [OF v assms(1)] by simp
  have acc: "\<forall>a\<in>set attribs. accepted m a"
    using assms(3,5) by (auto intro: accepted_if_valid)
  obtain pva pgl where p: "prepared (va, gl) = (pva, pgl)"
    by (cases "prepared (va, gl)") auto
  then have e: "enabledVertexAttribs pva = []" by (auto simp: prepared_def)
  have "setAttributes DEBUG_MODE attribs stride (va, gl) =
      attrib_loop attribs m (length attribs) stride (pva, pgl)"
    using setAttributes_reaches_loops [OF assms(1-4), of DEBUG_MODE va] pass p by simp
  also have "\<dots> =
     (Inr (), pva\<lparr>enabledVertexAttribs := enabledVertexAttribs pva @ map index attribs\<rparr>,
      pgl\<lparr>calls := calls pgl @ concat (map (attribute_calls stride) attribs)\<rparr>)"
    by (rule attrib_loop_all_accepted [OF acc])
  finally show ?thesis using e by simp
qed

theorem setAttributes_valid_layout_witness:
  "fst (setAttributes True [float_attribute 0 3 0, float_attribute 1 1 12] 16
         (\<lparr>handle = 1, enabledVertexAttribs = [5]\<rparr>,
          \<lparr>max_vertex_attribs = Some 16, calls = []\<rparr>)) = Inr ()
   \<and> enabledVertexAttribs (fst (snd (setAttributes True
         [float_attribute 0 3 0, float_attribute 1 1 12] 16
         (\<lparr>handle = 1, enabledVertexAttribs = [5]\<rparr>,
          \<lparr>max_vertex_attribs = Some 16, calls = []\<rparr>)))) = [0, 1]"
proof -
  let ?attribs = "[float_attribute 0 3 0, float_attribute 1 1 12]"
  let ?gl = "\<lparr>max_vertex_attribs = Some (16 :: c_int), calls = []\<rparr>"
  have h1: "0 < sint (16 :: c_int)" and h3: "0 \<le> sint (16 :: c_int)"
    and h4: "length ?attribs \<le> nat (sint (16 :: c_int))"
    by simp_all
  have h2: "max_vertex_attribs ?gl = Some 16" by simp
  have h5: "\<forall>a\<in>set ?attribs.
      valid_attribute a \<and> unat (index a) < nat (sint (16 :: c_int)) \<and> compatible a"
    by code_simp
  have h6: "True \<longrightarrow>
       (\<forall>a\<in>set ?attribs. \<not> exceeds_stride a 16)
       \<and> (\<forall>i<length ?attribs. \<forall>j<length ?attribs. i \<noteq> j \<longrightarrow>
             \<not> ranges_overlap (?attribs ! i) (?attribs ! j))"
    by code_simp
  from setAttributes_valid_layout [OF h1 h2 h3 h4 h5 h6,
      of "\<lparr>handle = 1, enabledVertexAttribs = [5]\<rparr>"]
  show ?thesis by (simp add: float_attribute_def)
qed

lemma attribute_calls_no_disable:
  "glDisableVertexAttribArray i \<notin> set (concat (map (attribute_calls stride) attribs))"
  by (induction attribs) (auto simp: attribute_calls_def split: sum.splits if_splits)

text \<open>
  C2. When two calls of \<open>setAttributes\<close> on the same object follow one another and both
  succeed, the native calls of the second are, in this order: the limit query, the binding
  of the object, one \<open>glDisableVertexAttribArray\<close> for each index that the first call
  enabled, and then the calls that enable and describe the descriptors of the second
  layout, none of which disables an index. After the second call the enabled indices of the
  object are the indices of the second layout.
\<close>

theorem setAttributes_twice:
  assumes "setAttributes DEBUG_MODE1 attribs1 stride1 (va0, gl0) = (Inr (), va1, gl1)"
    and "setAttributes DEBUG_MODE2 attribs2 stride2 (va1, gl1) = (Inr (), va2, gl2)"
  shows "enabledVertexAttribs va1 = map index attribs1
     \<and> calls gl2 =
         calls gl1 @ [glGetIntegerv_MAX_VERTEX_ATTRIBS, glBindVertexArray (handle va1)]
         @ map glDisableVertexAttribArray (map index attribs1)
         @ concat (map (attribute_calls stride2) attribs2)
     \<and> (\<forall>i. glDisableVertexAttribArray i \<notin> set (concat (map (attribute_calls stride2) attribs2)))
     \<and> enabledVertexAttribs va2 = map index attribs2
     \<and> set (enabledVertexAttribs va2) = index ` set attribs2"
proof -
  from setAttributes_success_state [OF assms(1)]
  have e1: "enabledVertexAttribs va1 = map index attribs1" by simp
  from setAttributes_success_state [OF assms(2)]
  have e2: "enabledVertexAttribs va2 = map index attribs2"
    and c2: "calls gl2 =
         calls gl1 @ [glGetIntegerv_MAX_VERTEX_ATTRIBS, glBindVertexArray (handle va1)]
         @ map glDisableVertexAttribArray (enabledVertexAttribs va1)
         @ concat (map (attribute_calls stride2) attribs2)"
    by simp_all
  from e1 e2 c2 attribute_calls_no_disable show ?thesis by simp
qed

theorem setAttributes_twice_witness:
  "setAttributes True [float_attribute 0 3 0, float_attribute 1 1 12] 16
     (\<lparr>handle = 1, enabledVertexAttribs = []\<rparr>, \<lparr>max_vertex_attribs = Some 16, calls = []\<rparr>) =
   (Inr (), \<lparr>handle = 1, enabledVertexAttribs = [0, 1]\<rparr>,
    \<lparr>max_vertex_attribs = Some 16,
      calls =
        [glGetIntegerv_MAX_VERTEX_ATTRIBS, glBindVertexArray 1,
         glEnableVertexAttribArray 0, glVertexAttribPointer 0 3 GL_FLOAT False 16 0,
         glEnableVertexAttribArray 1, glVertexAttribPointer 1 1 GL_FLOAT False 16 12]\<rparr>)
   \<and> setAttributes True [float_attribute 2 2 0] 8
       (\<lparr>handle = 1, enabledVertexAttribs = [0, 1]\<rparr>,
        \<lparr>max_vertex_attribs = Some 16,
          calls =
            [glGetIntegerv_MAX_VERTEX_ATTRIBS, glBindVertexArray 1,
             glEnableVertexAttribArray 0, glVertexAttribPointer 0 3 GL_FLOAT False 16 0,
             glEnableVertexAttribArray 1, glVertexAttribPointer 1 1 GL_FLOAT False 16 12]\<rparr>) =
     (Inr (), \<lparr>handle = 1, enabledVertexAttribs = [2]\<rparr>,
      \<lparr>max_vertex_attribs = Some 16,
        calls =
          [glGetIntegerv_MAX_VERTEX_ATTRIBS, glBindVertexArray 1,
           glEnableVertexAttribArray 0, glVertexAttribPointer 0 3 GL_FLOAT False 16 0,
           glEnableVertexAttribArray 1, glVertexAttribPointer 1 1 GL_FLOAT False 16 12,
           glGetIntegerv_MAX_VERTEX_ATTRIBS, glBindVertexArray 1,
           glDisableVertexAttribArray 0, glDisableVertexAttribArray 1,
           glEnableVertexAttribArray 2, glVertexAttribPointer 2 2 GL_FLOAT False 8 0]\<rparr>)
   \<and> map glDisableVertexAttribArray
         (map index [float_attribute 0 3 0, float_attribute 1 1 12])
       @ concat (map (attribute_calls 8) [float_attribute 2 2 0]) =
       [glDisableVertexAttribArray 0, glDisableVertexAttribArray 1,
        glEnableVertexAttribArray 2, glVertexAttribPointer 2 2 GL_FLOAT False 8 0]
   \<and> map index [float_attribute 2 2 0] = [2]"
proof -
  let ?va0 = "\<lparr>handle = 1, enabledVertexAttribs = []\<rparr>"
  let ?gl0 = "\<lparr>max_vertex_attribs = Some (16 :: c_int), calls = []\<rparr>"
  let ?va1 = "\<lparr>handle = 1, enabledVertexAttribs = [0, 1]\<rparr>"
  let ?gl1 = "\<lparr>max_vertex_attribs = Some (16 :: c_int),
        calls =
          [glGetIntegerv_MAX_VERTEX_ATTRIBS, glBindVertexArray 1,
           glEnableVertexAttribArray 0, glVertexAttribPointer 0 3 GL_FLOAT False 16 0,
           glEnableVertexAttribArray 1, glVertexAttribPointer 1 1 GL_FLOAT False 16 12]\<rparr>"
  let ?va2 = "\<lparr>handle = 1, enabledVertexAttribs = [2]\<rparr>"
  let ?gl2 = "\<lparr>max_vertex_attribs = Some (16 :: c_int),
        calls =
          [glGetIntegerv_MAX_VERTEX_ATTRIBS, glBindVertexArray 1,
           glEnableVertexAttribArray 0, glVertexAttribPointer 0 3 GL_FLOAT False 16 0,
           glEnableVertexAttribArray 1, glVertexAttribPointer 1 1 GL_FLOAT False 16 12,
           glGetIntegerv_MAX_VERTEX_ATTRIBS, glBindVertexArray 1,
           glDisableVertexAttribArray 0, glDisableVertexAttribArray 1,
           glEnableVertexAttribArray 2, glVertexAttribPointer 2 2 GL_FLOAT False 8 0]\<rparr>"
  have h1: "setAttributes True [float_attribute 0 3 0, float_attribute 1 1 12] 16 (?va0, ?gl0) =
      (Inr (), ?va1, ?gl1)"
    by code_simp
  have h2: "setAttributes True [float_attribute 2 2 0] 8 (?va1, ?gl1) = (Inr (), ?va2, ?gl2)"
    by code_simp
  from setAttributes_twice [OF h1 h2] h1 h2 show ?thesis
    by simp
qed

section \<open>A call that fails in the loop over the descriptors\<close>




section \<open>The debug pass inside \<open>setAttributes\<close>\<close>

text \<open>
  C5. In a debug build, for a call that reaches the debug pass with a layout whose
  descriptors have an offset that is not negative, between 1 and 4 components and a type of
  the enumeration: the pass throws nothing exactly when no descriptor ends beyond the
  stride and no two byte ranges overlap. When it throws, \<open>setAttributes\<close> throws the same
  \<open>std::invalid_argument\<close> with the object and the driver as lines 66 to 79 leave them,
  and the exception is either the one about the stride, and then some descriptor does end
  beyond the stride, or the one that names two positions, and then these are two different
  positions of the layout whose byte ranges do overlap. When both violations are present,
  nothing more is said about which of the two exceptions is thrown.
\<close>

theorem integrity_pass_violations:
  assumes "\<forall>a\<in>set attribs. valid_attribute a" "0 < sint stride"
    "max_vertex_attribs gl = Some m" "0 \<le> sint m" "length attribs \<le> nat (sint m)"
  shows "((integrity_pass attribs stride = Inr ()) =
           ((\<forall>a\<in>set attribs. \<not> exceeds_stride a stride)
            \<and> (\<forall>i<length attribs. \<forall>j<length attribs. i \<noteq> j \<longrightarrow>
                  \<not> ranges_overlap (attribs ! i) (attribs ! j))))
     \<and> (\<forall>err. integrity_pass attribs stride = Inl err \<longrightarrow>
            setAttributes True attribs stride (va, gl) = (Inl err, prepared (va, gl))
            \<and> ((err = stride_error \<and> (\<exists>a\<in>set attribs. exceeds_stride a stride))
               \<or> (\<exists>i<length attribs. \<exists>j<length attribs. i \<noteq> j
                     \<and> ranges_overlap (attribs ! i) (attribs ! j)
                     \<and> err = overlap_error i j)))"
proof (intro conjI allI impI)
  show "(integrity_pass attribs stride = Inr ()) =
           ((\<forall>a\<in>set attribs. \<not> exceeds_stride a stride)
            \<and> (\<forall>i<length attribs. \<forall>j<length attribs. i \<noteq> j \<longrightarrow>
                  \<not> ranges_overlap (attribs ! i) (attribs ! j)))"
    by (rule integrity_pass_Inr_iff [OF assms(1,2)])
next
  fix err assume f: "integrity_pass attribs stride = Inl err"
  show "setAttributes True attribs stride (va, gl) = (Inl err, prepared (va, gl))"
    using setAttributes_reaches_loops [OF assms(2-5), of True va] f by simp
  show "(err = stride_error \<and> (\<exists>a\<in>set attribs. exceeds_stride a stride))
        \<or> (\<exists>i<length attribs. \<exists>j<length attribs. i \<noteq> j
              \<and> ranges_overlap (attribs ! i) (attribs ! j) \<and> err = overlap_error i j)"
    by (rule integrity_pass_Inl [OF assms(1,2) f])
qed

theorem integrity_pass_violations_witness:
  "integrity_pass [float_attribute 0 3 0, float_attribute 1 1 8] 16 =
     Inl (invalid_argument ''VertexAttributes 0 and 1 overlap!'')
   \<and> setAttributes True [float_attribute 0 3 0, float_attribute 1 1 8] 16
       (\<lparr>handle = 1, enabledVertexAttribs = [5]\<rparr>,
        \<lparr>max_vertex_attribs = Some 16, calls = []\<rparr>) =
     (Inl (invalid_argument ''VertexAttributes 0 and 1 overlap!''),
      \<lparr>handle = 1, enabledVertexAttribs = []\<rparr>,
      \<lparr>max_vertex_attribs = Some 16,
        calls = [glGetIntegerv_MAX_VERTEX_ATTRIBS, glBindVertexArray 1,
                 glDisableVertexAttribArray 5]\<rparr>)
   \<and> ranges_overlap (float_attribute 0 3 0) (float_attribute 1 1 8)"
proof -
  let ?attribs = "[float_attribute 0 3 0, float_attribute 1 1 8]"
  let ?va = "\<lparr>handle = 1, enabledVertexAttribs = [5]\<rparr>"
  let ?gl = "\<lparr>max_vertex_attribs = Some (16 :: c_int), calls = []\<rparr>"
  let ?err = "invalid_argument ''VertexAttributes 0 and 1 overlap!''"
  have h1: "\<forall>a\<in>set ?attribs. valid_attribute a" by code_simp
  have h2: "0 < sint (16 :: c_int)" and h4: "0 \<le> sint (16 :: c_int)"
    and h5: "length ?attribs \<le> nat (sint (16 :: c_int))"
    by simp_all
  have h3: "max_vertex_attribs ?gl = Some 16" by simp
  have f: "integrity_pass ?attribs 16 = Inl ?err" by code_simp
  have o: "ranges_overlap (float_attribute 0 3 0) (float_attribute 1 1 8)" by code_simp
  have p: "prepared (?va, ?gl) =
      (\<lparr>handle = 1, enabledVertexAttribs = []\<rparr>,
       \<lparr>max_vertex_attribs = Some 16,
         calls = [glGetIntegerv_MAX_VERTEX_ATTRIBS, glBindVertexArray 1,
                  glDisableVertexAttribArray 5]\<rparr>)"
    by (simp add: prepared_def)
  from integrity_pass_violations [OF h1 h2 h3 h4 h5, of ?va] f
  have "setAttributes True ?attribs 16 (?va, ?gl) = (Inl ?err, prepared (?va, ?gl))"
    by blast
  with f o p show ?thesis by simp
qed

text \<open>
  Three layouts on which the pass does not do what a pass of all stride tests followed by
  all overlap tests would do. Two descriptors of four floats at the offset 0 with the stride
  12 overlap, and the exception is the one about the stride, which names no position. The
  ranges \<open>[0, 12)\<close>, \<open>[8, 12)\<close> and \<open>[12, 20)\<close> with the stride 16 have one range beyond
  the stride, and the exception is the one about the overlap of the positions 0 and 1. One
  float at the offset \<open>-100\<close> ends at \<open>-96\<close>, which is not beyond the stride 16, and the
  pass throws the exception about the stride.
\<close>

theorem integrity_pass_order_counterexample:
  "setAttributes True [float_attribute 0 4 0, float_attribute 1 4 0] 12
     (\<lparr>handle = 1, enabledVertexAttribs = []\<rparr>, \<lparr>max_vertex_attribs = Some 16, calls = []\<rparr>) =
   (Inl (invalid_argument ''Given VertexAttributes are bigger than the stride!''),
    \<lparr>handle = 1, enabledVertexAttribs = []\<rparr>,
    \<lparr>max_vertex_attribs = Some 16,
      calls = [glGetIntegerv_MAX_VERTEX_ATTRIBS, glBindVertexArray 1]\<rparr>)
   \<and> ranges_overlap (float_attribute 0 4 0) (float_attribute 1 4 0)
   \<and> setAttributes True [float_attribute 0 3 0, float_attribute 1 1 8, float_attribute 2 2 12] 16
       (\<lparr>handle = 1, enabledVertexAttribs = []\<rparr>, \<lparr>max_vertex_attribs = Some 16, calls = []\<rparr>) =
     (Inl (invalid_argument ''VertexAttributes 0 and 1 overlap!''),
      \<lparr>handle = 1, enabledVertexAttribs = []\<rparr>,
      \<lparr>max_vertex_attribs = Some 16,
        calls = [glGetIntegerv_MAX_VERTEX_ATTRIBS, glBindVertexArray 1]\<rparr>)
   \<and> exceeds_stride (float_attribute 2 2 12) 16
   \<and> integrity_pass [float_attribute 0 1 (- 100)] 16 =
       Inl (invalid_argument ''Given VertexAttributes are bigger than the stride!'')
   \<and> \<not> exceeds_stride (float_attribute 0 1 (- 100)) 16"
  by code_simp

text \<open>
  C10. In a debug build, let the call reach the debug pass, and let the descriptor at
  position \<open>k\<close> have a type of the enumeration and a sum
  \<open>offset + typeToBytes(type) * numComponents\<close> that is negative (product and sum within
  the range of \<open>int\<close>), while no position before \<open>k\<close> makes the pass throw. Then
  \<open>setAttributes\<close> throws the exception about the stride, out of the debug pass, and not
  the exception about a negative offset: converted to \<open>size_t\<close> the negative sum is larger
  than any stride, and the loop that tests \<open>offset < 0\<close> is never reached.
\<close>

theorem setAttributes_negative_end:
  assumes "0 < sint stride" "max_vertex_attribs gl = Some m" "0 \<le> sint m"
    "length attribs \<le> nat (sint m)"
    and "k < length attribs" "type (attribs ! k) \<in> VertexAttribType_enumerators"
    and "- (2 ^ 31) \<le> attrib_bytes (attribs ! k)" "attrib_bytes (attribs ! k) < 2 ^ 31"
    and "- (2 ^ 31) \<le> attrib_end (attribs ! k)" "attrib_end (attribs ! k) < 0"
    and "integrity_loop attribs stride [0..<k] = Inr ()"
  shows "setAttributes True attribs stride (va, gl) =
     (Inl (invalid_argument ''Given VertexAttributes are bigger than the stride!''),
      prepared (va, gl))
     \<and> fst (setAttributes True attribs stride (va, gl)) \<noteq>
         Inl (invalid_argument ''Offset may not be less than 0!'')"
proof -
  have "[0..<length attribs] = [0..<k] @ k # [Suc k..<length attribs]"
    using assms(5) by (metis le_add2 le_add_same_cancel2 less_imp_add_positive upt_add_eq_append upt_conv_Cons)
  then have "integrity_pass attribs stride =
      integrity_loop attribs stride ([0..<k] @ k # [Suc k..<length attribs])"
    by (simp add: integrity_pass_def)
  also have "\<dots> = integrity_loop attribs stride (k # [Suc k..<length attribs])"
    using assms(11) by (simp add: integrity_loop_append)
  also have "\<dots> = Inl stride_error"
    by (rule integrity_loop_negative_end [OF assms(6,9,10,1)])
  finally have "integrity_pass attribs stride = Inl stride_error" .
  then have "setAttributes True attribs stride (va, gl) = (Inl stride_error, prepared (va, gl))"
    using setAttributes_reaches_loops [OF assms(1-4), of True va] by simp
  then show ?thesis by (simp add: stride_error_def)
qed

theorem setAttributes_negative_end_witness:
  "sint (offset (float_attribute 1 1 (- 100))) < 0
   \<and> attrib_end (float_attribute 1 1 (- 100)) = - 96
   \<and> setAttributes True [float_attribute 0 3 0, float_attribute 1 1 (- 100)] 16
       (\<lparr>handle = 1, enabledVertexAttribs = [5]\<rparr>,
        \<lparr>max_vertex_attribs = Some 16, calls = []\<rparr>) =
     (Inl (invalid_argument ''Given VertexAttributes are bigger than the stride!''),
      \<lparr>handle = 1, enabledVertexAttribs = []\<rparr>,
      \<lparr>max_vertex_attribs = Some 16,
        calls = [glGetIntegerv_MAX_VERTEX_ATTRIBS, glBindVertexArray 1,
                 glDisableVertexAttribArray 5]\<rparr>)"
proof -
  let ?attribs = "[float_attribute 0 3 0, float_attribute 1 1 (- 100)]"
  let ?va = "\<lparr>handle = 1, enabledVertexAttribs = [5]\<rparr>"
  let ?gl = "\<lparr>max_vertex_attribs = Some (16 :: c_int), calls = []\<rparr>"
  have h1: "0 < sint (16 :: c_int)" and h3: "0 \<le> sint (16 :: c_int)"
    and h4: "length ?attribs \<le> nat (sint (16 :: c_int))" and h5: "1 < length ?attribs"
    by simp_all
  have h2: "max_vertex_attribs ?gl = Some 16" by simp
  have h6: "type (?attribs ! 1) \<in> VertexAttribType_enumerators" by code_simp
  have e: "attrib_end (float_attribute 1 1 (- 100)) = - 96"
    and b: "attrib_bytes (float_attribute 1 1 (- 100)) = 4"
    and n: "sint (offset (float_attribute 1 1 (- 100))) < 0"
    by (simp_all add: attrib_end_def attrib_bytes_def typeToBytes_def float_attribute_def
        VertexAttribType_defs)
  have h7: "- (2 ^ 31) \<le> attrib_bytes (?attribs ! 1)" "attrib_bytes (?attribs ! 1) < 2 ^ 31"
    and h9: "- (2 ^ 31) \<le> attrib_end (?attribs ! 1)" "attrib_end (?attribs ! 1) < 0"
    using e b by simp_all
  have h11: "integrity_loop ?attribs 16 [0..<1] = Inr ()" by code_simp
  have p: "prepared (?va, ?gl) =
      (\<lparr>handle = 1, enabledVertexAttribs = []\<rparr>,
       \<lparr>max_vertex_attribs = Some 16,
         calls = [glGetIntegerv_MAX_VERTEX_ATTRIBS, glBindVertexArray 1,
                  glDisableVertexAttribArray 5]\<rparr>)"
    by (simp add: prepared_def)
  from setAttributes_negative_end [OF h1 h2 h3 h4 h5 h6 h7 h9 h11, of ?va] e n p
  show ?thesis by simp
qed

text \<open>
  A layout in which the descriptor with the negative sum is not the first to make the debug
  pass throw: the ranges \<open>[0, 12)\<close> and \<open>[8, 12)\<close> at the positions 0 and 1 overlap, and
  the float at the offset \<open>-100\<close>, which ends at \<open>-96\<close>, stands at the position 2. The
  exception is the one about the overlap of the positions 0 and 1, thrown before the
  position 2 is looked at.
\<close>

theorem setAttributes_negative_end_after_overlap:
  "setAttributes True
     [float_attribute 0 3 0, float_attribute 1 1 8, float_attribute 2 1 (- 100)] 16
     (\<lparr>handle = 1, enabledVertexAttribs = []\<rparr>, \<lparr>max_vertex_attribs = Some 16, calls = []\<rparr>) =
   (Inl (invalid_argument ''VertexAttributes 0 and 1 overlap!''),
    \<lparr>handle = 1, enabledVertexAttribs = []\<rparr>,
    \<lparr>max_vertex_attribs = Some 16,
      calls = [glGetIntegerv_MAX_VERTEX_ATTRIBS, glBindVertexArray 1]\<rparr>)
   \<and> sint (offset (float_attribute 2 1 (- 100))) = - 100
   \<and> attrib_end (float_attribute 2 1 (- 100)) = - 96
   \<and> fst (setAttributes True
         [float_attribute 0 3 0, float_attribute 1 1 8, float_attribute 2 1 (- 100)] 16
         (\<lparr>handle = 1, enabledVertexAttribs = []\<rparr>,
          \<lparr>max_vertex_attribs = Some 16, calls = []\<rparr>)) \<noteq>
       Inl (invalid_argument ''Given VertexAttributes are bigger than the stride!'')"
  by code_simp

end
